theory Spec2Isabelle
  imports Main "HOL-Library.Sublist"
begin

section \<open>Data model of \<^verbatim>\<open>src/views/Chat.vue\<close>\<close>

text \<open>
  The two interfaces of the component. JavaScript strings are \<open>string\<close>; the
  millisecond timestamps (\<^verbatim>\<open>Date.now()\<close>, \<^verbatim>\<open>timestamp: number\<close>) are integers.
\<close>

record Message =
  id_msg :: string
  sender :: string
  senderId :: string
  content :: string
  timestamp :: int

record Participant =
  id_part :: string
  username_part :: string
  isConnected_part :: bool

text \<open>
  The frames exchanged over a channel, \<^verbatim>\<open>{type, data}\<close>. \<open>USER_INFO i u\<close> is
  \<^verbatim>\<open>{type: 'USER_INFO', data: {id: i, username: u}}\<close>; \<open>OTHER t\<close> is a frame whose
  \<^verbatim>\<open>type\<close> is none of the four cases of the \<^verbatim>\<open>switch\<close>.
\<close>

datatype Frame =
  USER_INFO string string
| INIT_MESSAGES "Message list"
| INIT_PARTICIPANTS "Participant list"
| NEW_MESSAGE Message
| OTHER string

text \<open>
  The connection metadata that \<^verbatim>\<open>joinRoom\<close> passes to \<^verbatim>\<open>peer.connect\<close>, and the
  connection object itself: \<^verbatim>\<open>conn.peer\<close>, \<^verbatim>\<open>conn.metadata\<close> (absent on a connection
  opened without options) and \<^verbatim>\<open>conn.open\<close>.
\<close>

record Metadata =
  username_meta :: string
  joinRoom_meta :: bool

record Conn =
  peer_conn :: string
  metadata_conn :: "Metadata option"
  open_conn :: bool

text \<open>The \<^verbatim>\<open>Peer\<close> object, as far as the component reads it.\<close>

record Peer =
  destroyed :: bool
  disconnected :: bool

text \<open>
  The refs of the component. \<open>connections\<close> is the \<^verbatim>\<open>Record<string, any>\<close> keyed by
  \<^verbatim>\<open>conn.peer\<close>, kept as the list of its values in insertion order (the order
  \<^verbatim>\<open>Object.values\<close> walks them in).
\<close>

record State =
  roomId :: string
  username :: string
  message :: string
  messages :: "Message list"
  participants :: "Participant list"
  peer :: "Peer option"
  connections :: "Conn list"
  peerId :: string
  isConnected :: bool
  errorMessage :: string
  lastActivityTime :: int
  isRoomCreator :: bool

text \<open>What a callback does to the outside: frames sent, channels closed, navigation.\<close>

datatype Effect =
  Send string Frame
| Close string
| Destroy
| RouterPush string

section \<open>JavaScript primitives the component uses\<close>

text \<open>
  \<^verbatim>\<open>String.prototype.trim\<close>: white space and line terminators are removed from both
  ends. On the code units below 256 these are TAB, LF, VT, FF, CR, SP and NBSP.
\<close>

definition isWhiteSpace :: "char \<Rightarrow> bool" where
  "isWhiteSpace c = ((of_char c :: nat) \<in> {9, 10, 11, 12, 13, 32, 160})"

definition trim :: "string \<Rightarrow> string" where
  "trim s = rev (dropWhile isWhiteSpace (rev (dropWhile isWhiteSpace s)))"

text \<open>
  The decimal rendering of an integer inside a template literal
  (\<^verbatim>\<open>`${Date.now()}`\<close>): digits, most significant first, with a leading minus sign
  for a negative number.
\<close>

fun digits :: "nat \<Rightarrow> string" where
  "digits n =
     (if n < 10 then [char_of (48 + n)]
      else digits (n div 10) @ [char_of (48 + n mod 10)])"

definition toString :: "int \<Rightarrow> string" where
  "toString i = (if i < 0 then CHR ''-'' # digits (nat (- i)) else digits (nat i))"

text \<open>\<^verbatim>\<open>Array.prototype.findIndex\<close>; \<open>None\<close> is the result \<^verbatim>\<open>-1\<close>.\<close>

fun findIndex :: "('a \<Rightarrow> bool) \<Rightarrow> 'a list \<Rightarrow> nat option" where
  "findIndex P [] = None"
| "findIndex P (x # xs) =
     (if P x then Some 0 else map_option Suc (findIndex P xs))"

text \<open>
  \<^verbatim>\<open>xs.sort((a, b) => a.timestamp - b.timestamp)\<close>: the sort of the language is
  stable, so this is the stable sort on the timestamp.
\<close>

definition sortByTimestamp :: "Message list \<Rightarrow> Message list" where
  "sortByTimestamp ms = sort_key timestamp ms"

text \<open>\<^verbatim>\<open>connections.value[conn.peer] = conn\<close> and \<^verbatim>\<open>delete connections.value[p]\<close>.\<close>

fun setConn :: "Conn \<Rightarrow> Conn list \<Rightarrow> Conn list" where
  "setConn c [] = [c]"
| "setConn c (d # ds) =
     (if peer_conn d = peer_conn c then c # ds else d # setConn c ds)"

definition deleteConn :: "string \<Rightarrow> Conn list \<Rightarrow> Conn list" where
  "deleteConn p cs = filter (\<lambda>c. peer_conn c \<noteq> p) cs"

section \<open>The callbacks\<close>

definition sessionTimeout :: int where
  "sessionTimeout = 15 * 60 * 1000"

definition pollInterval :: int where
  "pollInterval = 60000"

text \<open>
  \<^verbatim>\<open>watch(messages, () => { lastActivityTime.value = Date.now() })\<close>. The watcher is
  on the ref, without \<^verbatim>\<open>deep\<close>: the framework runs it when \<^verbatim>\<open>messages.value\<close> is
  assigned a new array, and not when the array it holds is changed in place by
  \<^verbatim>\<open>push\<close> or \<^verbatim>\<open>sort\<close>. \<open>now\<close> is the clock reading of the callback.
\<close>

definition watch_messages :: "int \<Rightarrow> State \<Rightarrow> State" where
  "watch_messages now s = s\<lparr>lastActivityTime := now\<rparr>"

text \<open>
  \<^verbatim>\<open>handlePeerData(peerId, data)\<close>. The cases INIT\_MESSAGES and
  INIT\_PARTICIPANTS assign a new array to the ref; USER\_INFO and NEW\_MESSAGE
  change the array in place.
\<close>

fun handlePeerData :: "int \<Rightarrow> State \<Rightarrow> string \<Rightarrow> Frame \<Rightarrow> State" where
  "handlePeerData now s from (USER_INFO i u) =
     (if \<not> list_ex (\<lambda>p. id_part p = i) (participants s)
      then s\<lparr>participants := participants s @
             [\<lparr>id_part = i, username_part = u, isConnected_part = True\<rparr>]\<rparr>
      else s)"
| "handlePeerData now s from (INIT_MESSAGES ds) =
     (let newMessages =
            filter (\<lambda>msg. \<not> list_ex (\<lambda>m. id_msg m = id_msg msg) (messages s)) ds
      in watch_messages now
           (s\<lparr>messages := sortByTimestamp (messages s @ newMessages)\<rparr>))"
| "handlePeerData now s from (INIT_PARTICIPANTS ds) =
     (let newParticipants =
            filter (\<lambda>p. \<not> list_ex (\<lambda>existing. id_part existing = id_part p)
                             (participants s)) ds
      in s\<lparr>participants := participants s @ newParticipants\<rparr>)"
| "handlePeerData now s from (NEW_MESSAGE d) =
     (if \<not> list_ex (\<lambda>m. id_msg m = id_msg d) (messages s)
      then s\<lparr>messages := sortByTimestamp (messages s @ [d])\<rparr>
      else s)"
| "handlePeerData now s from (OTHER t) = s"

text \<open>
  \<^verbatim>\<open>sendMessage\<close>. The clock is read three times: for the id, for the timestamp
  and for \<^verbatim>\<open>lastActivityTime\<close>.
\<close>

definition sendMessage :: "int \<Rightarrow> int \<Rightarrow> int \<Rightarrow> State \<Rightarrow> State \<times> Effect list" where
  "sendMessage t_id t_stamp t_activity s =
     (if trim (message s) = [] \<or> \<not> isConnected s then (s, [])
      else
        let newMessage =
              \<lparr>id_msg = peerId s @ ''-'' @ toString t_id,
               sender = username s,
               senderId = peerId s,
               content = message s,
               timestamp = t_stamp\<rparr>
        in (s\<lparr>messages := messages s @ [newMessage],
              message := [],
              lastActivityTime := t_activity\<rparr>,
            map (\<lambda>conn. Send (peer_conn conn) (NEW_MESSAGE newMessage)) (connections s)))"

text \<open>
  \<^verbatim>\<open>handleConnection(conn)\<close> stores the connection and registers four callbacks;
  the three that touch the state follow.
\<close>

definition handleConnection :: "State \<Rightarrow> Conn \<Rightarrow> State" where
  "handleConnection s conn = s\<lparr>connections := setConn conn (connections s)\<rparr>"

definition conn_on_open :: "State \<Rightarrow> Conn \<Rightarrow> State \<times> Effect list" where
  "conn_on_open s conn =
     (s\<lparr>errorMessage := []\<rparr>,
      Send (peer_conn conn) (USER_INFO (peerId s) (username s)) #
      (if (case metadata_conn conn of None \<Rightarrow> False | Some md \<Rightarrow> joinRoom_meta md)
       then [Send (peer_conn conn) (INIT_MESSAGES (messages s)),
             Send (peer_conn conn) (INIT_PARTICIPANTS (participants s))]
       else []))"

definition conn_on_data :: "int \<Rightarrow> State \<Rightarrow> Conn \<Rightarrow> Frame \<Rightarrow> State" where
  "conn_on_data now s conn d = handlePeerData now s (peer_conn conn) d"

definition conn_on_close :: "State \<Rightarrow> string \<Rightarrow> State" where
  "conn_on_close s p =
     (let s1 = s\<lparr>connections := deleteConn p (connections s)\<rparr>
      in case findIndex (\<lambda>q. id_part q = p) (participants s1) of
           None \<Rightarrow> s1
         | Some i \<Rightarrow>
             s1\<lparr>participants :=
                  (participants s1)[i := (participants s1 ! i)\<lparr>isConnected_part := False\<rparr>]\<rparr>)"

text \<open>
  Modelled from the spec: the transport primitive \<^verbatim>\<open>connect(address, metadata?) ->
  channel\<close> is not part of the repository. The channel it hands back is tagged with
  the metadata it was asked for and is not open yet; a peer that is disconnected
  from the signalling server hands back nothing. On the dialled side the same
  metadata arrives with the incoming channel.
\<close>

definition connect :: "Peer \<Rightarrow> string \<Rightarrow> Metadata \<Rightarrow> Conn option" where
  "connect p target md =
     (if disconnected p then None
      else Some \<lparr>peer_conn = target, metadata_conn = Some md, open_conn = False\<rparr>)"

definition incoming :: "string \<Rightarrow> Metadata option \<Rightarrow> Conn" where
  "incoming caller md = \<lparr>peer_conn = caller, metadata_conn = md, open_conn = False\<rparr>"

definition joinRoom :: "State \<Rightarrow> State" where
  "joinRoom s =
     (if \<not> isRoomCreator s
      then (case (case peer s of None \<Rightarrow> None
                  | Some p \<Rightarrow> connect p (roomId s)
                               \<lparr>username_meta = username s, joinRoom_meta = True\<rparr>) of
              Some conn \<Rightarrow> handleConnection s conn
            | None \<Rightarrow> s\<lparr>errorMessage := ''Failed to establish connection to the room.''\<rparr>)
      else s)"

text \<open>The callback of \<^verbatim>\<open>peer.on('open')\<close> and of \<^verbatim>\<open>peer.on('connection')\<close>.\<close>

definition peer_on_open :: "State \<Rightarrow> string \<Rightarrow> State" where
  "peer_on_open s i =
     (let s1 = s\<lparr>peerId := i, isConnected := True,
                 participants := participants s @
                   [\<lparr>id_part = i, username_part = username s, isConnected_part = True\<rparr>]\<rparr>
      in if \<not> isRoomCreator s1 then joinRoom s1 else s1)"

definition peer_on_connection :: "State \<Rightarrow> Conn \<Rightarrow> State" where
  "peer_on_connection s conn = handleConnection s conn"

text \<open>
  \<^verbatim>\<open>handleDisconnect\<close>. Modelled from the spec: \<^verbatim>\<open>close()\<close> of the transport primitive
  is not part of the repository; closing an open channel makes it report closed
  and delivers its close signal, so the callback of \<^verbatim>\<open>conn.on('close')\<close> runs for
  it, and \<^verbatim>\<open>destroy()\<close> makes the peer report destroyed. The loop walks the values
  the record held when the loop began.
\<close>

fun closeOpen :: "State \<Rightarrow> Conn list \<Rightarrow> State \<times> Effect list" where
  "closeOpen s [] = (s, [])"
| "closeOpen s (conn # cs) =
     (if open_conn conn
      then (case closeOpen (conn_on_close s (peer_conn conn)) cs of
              (s', es) \<Rightarrow> (s', Close (peer_conn conn) # es))
      else closeOpen s cs)"

definition handleDisconnect :: "State \<Rightarrow> State \<times> Effect list" where
  "handleDisconnect s =
     (case closeOpen s (connections s) of
        (s1, es) \<Rightarrow>
          (case peer s1 of
             None \<Rightarrow> (s1, es)
           | Some p \<Rightarrow>
               if \<not> destroyed p
               then (s1\<lparr>peer := Some (p\<lparr>destroyed := True, disconnected := True\<rparr>)\<rparr>,
                     es @ [Destroy])
               else (s1, es)))"

text \<open>
  The callback that \<^verbatim>\<open>setupTimeoutCheck\<close> hands to \<^verbatim>\<open>setInterval\<close>, run every
  \<open>pollInterval\<close> milliseconds; \<open>now\<close> is its clock reading.
\<close>

definition timeoutCheck :: "int \<Rightarrow> State \<Rightarrow> State \<times> Effect list" where
  "timeoutCheck now s =
     (let timeSinceLastActivity = now - lastActivityTime s
      in if timeSinceLastActivity > sessionTimeout then (s, [RouterPush ''/''])
         else (s, []))"

text \<open>
  The refs as the component creates them, and \<^verbatim>\<open>initializePeer\<close>, which decides
  whether this client created the room (\<open>stored\<close> is the \<^verbatim>\<open>createdRoomId\<close> of the
  local storage) and creates the peer.
\<close>

definition initialState :: "string \<Rightarrow> string \<Rightarrow> int \<Rightarrow> State" where
  "initialState room user now =
     \<lparr>roomId = room, username = user, message = [], messages = [], participants = [],
      peer = None, connections = [], peerId = [], isConnected = False,
      errorMessage = [], lastActivityTime = now, isRoomCreator = False\<rparr>"

definition initializePeer :: "State \<Rightarrow> string option \<Rightarrow> State" where
  "initializePeer s stored =
     s\<lparr>isRoomCreator := (stored = Some (roomId s)),
       peer := Some \<lparr>destroyed = False, disconnected = False\<rparr>\<rparr>"

text \<open>A message of the peer \<open>a\<close>, for the concrete runs below.\<close>

definition msgOf :: "string \<Rightarrow> string \<Rightarrow> int \<Rightarrow> Message" where
  "msgOf a i t = \<lparr>id_msg = i, sender = a, senderId = a, content = ''hi'', timestamp = t\<rparr>"

text \<open>
  The events the component reacts to, each with the clock readings its callback
  takes, and the callback each one runs.
\<close>

datatype Event =
  PeerOpen string
| PeerConnection Conn
| ConnOpen Conn
| ConnData int Conn Frame
| ConnClose string
| LocalSend int int int
| Teardown
| TimeoutPoll int

fun step :: "State \<Rightarrow> Event \<Rightarrow> State \<times> Effect list" where
  "step s (PeerOpen i) = (peer_on_open s i, [])"
| "step s (PeerConnection conn) = (peer_on_connection s conn, [])"
| "step s (ConnOpen conn) = conn_on_open s conn"
| "step s (ConnData now conn d) = (conn_on_data now s conn d, [])"
| "step s (ConnClose p) = (conn_on_close s p, [])"
| "step s (LocalSend t_id t_stamp t_activity) = sendMessage t_id t_stamp t_activity s"
| "step s Teardown = handleDisconnect s"
| "step s (TimeoutPoll now) = timeoutCheck now s"

text \<open>The key a roster entry keeps for its whole life: its id and its username.\<close>

definition rosterKeys :: "State \<Rightarrow> (string \<times> string) list" where
  "rosterKeys s = map (\<lambda>q. (id_part q, username_part q)) (participants s)"

text \<open>How often a run of callbacks released the local transport identity.\<close>

definition releases :: "Effect list \<Rightarrow> nat" where
  "releases es = length (filter (\<lambda>e. e = Destroy) es)"

text \<open>
  The draft is bound to the input field (\<^verbatim>\<open>v-model="message"\<close>): typing sets it.
  \<open>localRun\<close> is a run of local sends, each a draft typed and \<^verbatim>\<open>sendMessage\<close>
  called with its three clock readings.
\<close>

definition typing :: "State \<Rightarrow> string \<Rightarrow> State" where
  "typing s d = s\<lparr>message := d\<rparr>"

fun localRun :: "State \<Rightarrow> (string \<times> int \<times> int \<times> int) list \<Rightarrow> State" where
  "localRun s [] = s"
| "localRun s ((d, t_id, t_stamp, t_activity) # r) =
     localRun (fst (sendMessage t_id t_stamp t_activity (typing s d))) r"

declare digits.simps [simp del]

section \<open>Idempotence of the frame handler\<close>

lemma sortByTimestamp_sorted: "sorted (map timestamp (sortByTimestamp ms))"
  by (simp add: sortByTimestamp_def)

lemma sortByTimestamp_idem: "sortByTimestamp (sortByTimestamp ms) = sortByTimestamp ms"
  unfolding sortByTimestamp_def by (rule sort_key_id_if_sorted) simp

lemma set_sortByTimestamp: "set (sortByTimestamp ms) = set ms"
  by (simp add: sortByTimestamp_def)

lemma list_ex_id_iff: "list_ex (\<lambda>m. f m = k) xs \<longleftrightarrow> k \<in> f ` set xs"
  by (auto simp: list_ex_iff)

lemma init_messages_second_filter:
  "filter (\<lambda>msg. \<not> list_ex (\<lambda>m. id_msg m = id_msg msg)
        (sortByTimestamp (A @ filter (\<lambda>msg. \<not> list_ex (\<lambda>m. id_msg m = id_msg msg) A) B))) B = []"
  by (auto simp: filter_empty_conv list_ex_iff set_sortByTimestamp)

lemma init_participants_second_filter:
  "filter (\<lambda>p. \<not> list_ex (\<lambda>e. id_part e = id_part p)
        (A @ filter (\<lambda>p. \<not> list_ex (\<lambda>e. id_part e = id_part p) A) B)) B = []"
  by (auto simp: filter_empty_conv list_ex_iff)

text \<open>
  Claim C1. Handling the same frame a second time, right after the first, leaves
  the message log and the roster as the first handling left them; this holds for
  the four frame kinds and for a frame of any other kind.
\<close>

theorem handlePeerData_idempotent:
  "messages (handlePeerData n2 (handlePeerData n1 s p f) p f) = messages (handlePeerData n1 s p f)
   \<and> participants (handlePeerData n2 (handlePeerData n1 s p f) p f)
       = participants (handlePeerData n1 s p f)"
proof (cases f)
  case (USER_INFO i u)
  then show ?thesis by (simp add: list_ex_iff)
next
  case (INIT_MESSAGES ds)
  then show ?thesis
    by (simp add: Let_def watch_messages_def init_messages_second_filter sortByTimestamp_idem
          del: list_ex_append)
next
  case (INIT_PARTICIPANTS ds)
  then show ?thesis
    by (simp add: Let_def init_participants_second_filter del: list_ex_append)
next
  case (NEW_MESSAGE d)
  then show ?thesis by (simp add: list_ex_iff set_sortByTimestamp)
next
  case (OTHER t)
  then show ?thesis by simp
qed

section \<open>Merging a backfilled log\<close>

lemma distinct_map_insort_key:
  "distinct (map f (insort_key g x xs)) \<longleftrightarrow> f x \<notin> f ` set xs \<and> distinct (map f xs)"
  by (induction xs) (auto simp: set_insort_key)

lemma distinct_map_sort_key:
  "distinct (map f (sort_key g xs)) \<longleftrightarrow> distinct (map f xs)"
  by (induction xs) (simp_all add: distinct_map_insort_key)

text \<open>
  Claim C2. When the ids of the local log are pairwise distinct and so are those
  of the payload, handling INIT\_MESSAGES gives a log whose ids are those of the
  local log together with those of the payload, in non-decreasing timestamp order,
  where entries of equal timestamp keep the order of insertion (the local entries,
  then the new ones in payload order), and whose ids are again pairwise distinct.
\<close>

theorem init_messages_merge:
  assumes "distinct (map id_msg (messages s))" and "distinct (map id_msg B)"
  shows "id_msg ` set (messages (handlePeerData now s p (INIT_MESSAGES B)))
           = id_msg ` set (messages s) \<union> id_msg ` set B
       \<and> sorted (map timestamp (messages (handlePeerData now s p (INIT_MESSAGES B))))
       \<and> (\<forall>k. filter (\<lambda>m. timestamp m = k) (messages (handlePeerData now s p (INIT_MESSAGES B)))
              = filter (\<lambda>m. timestamp m = k)
                  (messages s @ filter (\<lambda>m. id_msg m \<notin> id_msg ` set (messages s)) B))
       \<and> distinct (map id_msg (messages (handlePeerData now s p (INIT_MESSAGES B))))"
proof -
  let ?new = "filter (\<lambda>msg. \<not> list_ex (\<lambda>m. id_msg m = id_msg msg) (messages s)) B"
  let ?R = "messages (handlePeerData now s p (INIT_MESSAGES B))"
  have R: "?R = sortByTimestamp (messages s @ ?new)"
    by (simp add: Let_def watch_messages_def)
  have new: "?new = filter (\<lambda>m. id_msg m \<notin> id_msg ` set (messages s)) B"
    by (simp add: list_ex_id_iff)
  have ids: "id_msg ` set ?R = id_msg ` set (messages s) \<union> id_msg ` set B"
    unfolding R set_sortByTimestamp new by auto
  have srt: "sorted (map timestamp ?R)"
    unfolding R by (rule sortByTimestamp_sorted)
  have stable: "\<forall>k. filter (\<lambda>m. timestamp m = k) ?R
      = filter (\<lambda>m. timestamp m = k) (messages s @ filter (\<lambda>m. id_msg m \<notin> id_msg ` set (messages s)) B)"
    unfolding R new sortByTimestamp_def by (simp add: sort_key_stable)
  have "id_msg ` set (messages s) \<inter> id_msg ` set ?new = {}"
    unfolding new by auto (metis imageI)
  with assms have "distinct (map id_msg (messages s @ ?new))"
    by (simp add: distinct_map_filter)
  then have "distinct (map id_msg ?R)"
    unfolding R sortByTimestamp_def by (simp only: distinct_map_sort_key)
  with ids srt stable show ?thesis by blast
qed

theorem init_messages_merge_witness:
  "distinct (map id_msg (messages ((initialState ''room-1'' ''X'' 0)
       \<lparr>messages := [msgOf ''X'' ''a'' 5, msgOf ''X'' ''b'' 9]\<rparr>)))
   \<and> distinct (map id_msg [msgOf ''Y'' ''c'' 5, msgOf ''X'' ''a'' 5, msgOf ''Y'' ''d'' 1])
   \<and> messages (handlePeerData 7 ((initialState ''room-1'' ''X'' 0)
         \<lparr>messages := [msgOf ''X'' ''a'' 5, msgOf ''X'' ''b'' 9]\<rparr>) ''Y''
         (INIT_MESSAGES [msgOf ''Y'' ''c'' 5, msgOf ''X'' ''a'' 5, msgOf ''Y'' ''d'' 1]))
       = [msgOf ''Y'' ''d'' 1, msgOf ''X'' ''a'' 5, msgOf ''Y'' ''c'' 5, msgOf ''X'' ''b'' 9]
   \<and> sorted (map timestamp (messages (handlePeerData 7 ((initialState ''room-1'' ''X'' 0)
         \<lparr>messages := [msgOf ''X'' ''a'' 5, msgOf ''X'' ''b'' 9]\<rparr>) ''Y''
         (INIT_MESSAGES [msgOf ''Y'' ''c'' 5, msgOf ''X'' ''a'' 5, msgOf ''Y'' ''d'' 1]))))"
  using init_messages_merge
    [of "(initialState ''room-1'' ''X'' 0)\<lparr>messages := [msgOf ''X'' ''a'' 5, msgOf ''X'' ''b'' 9]\<rparr>"
        "[msgOf ''Y'' ''c'' 5, msgOf ''X'' ''a'' 5, msgOf ''Y'' ''d'' 1]" 7 "''Y''"]
  by (simp add: initialState_def msgOf_def sortByTimestamp_def watch_messages_def)

section \<open>The close signal of a channel\<close>

lemma findIndex_None_iff: "findIndex P xs = None \<longleftrightarrow> (\<forall>x\<in>set xs. \<not> P x)"
  by (induction xs) auto

lemma findIndex_Some:
  "findIndex P xs = Some i \<Longrightarrow> i < length xs \<and> P (xs ! i) \<and> (\<forall>j<i. \<not> P (xs ! j))"
proof (induction xs arbitrary: i)
  case Nil
  then show ?case by simp
next
  case (Cons x xs)
  show ?case
  proof (cases "P x")
    case True
    with Cons.prems show ?thesis by simp
  next
    case False
    with Cons.prems obtain k where k: "findIndex P xs = Some k" "i = Suc k"
      by auto
    from Cons.IH[OF k(1)] False k(2) show ?thesis
      by (auto simp: nth_Cons split: nat.splits)
  qed
qed

lemma conn_on_close_connections:
  "connections (conn_on_close s p) = deleteConn p (connections s)"
  by (simp add: conn_on_close_def Let_def split: option.splits)

lemma conn_on_close_participants:
  "participants (conn_on_close s p) =
     (case findIndex (\<lambda>q. id_part q = p) (participants s) of
        None \<Rightarrow> participants s
      | Some i \<Rightarrow> (participants s)[i := (participants s ! i)\<lparr>isConnected_part := False\<rparr>])"
  by (simp add: conn_on_close_def Let_def split: option.splits)

lemma map_id_part_update:
  "map id_part (xs[i := (xs ! i)\<lparr>isConnected_part := False\<rparr>]) = map id_part xs"
  by (cases "i < length xs") (simp_all add: map_update list_update_same_conv list_update_beyond)

lemma map_username_part_update:
  "map username_part (xs[i := (xs ! i)\<lparr>isConnected_part := False\<rparr>]) = map username_part xs"
  by (cases "i < length xs") (simp_all add: map_update list_update_same_conv list_update_beyond)

lemma conn_on_close_ids:
  "map id_part (participants (conn_on_close s p)) = map id_part (participants s)"
  by (simp add: conn_on_close_participants map_id_part_update split: option.splits)

lemma conn_on_close_usernames:
  "map username_part (participants (conn_on_close s p)) = map username_part (participants s)"
  by (simp add: conn_on_close_participants map_username_part_update split: option.splits)

lemma conn_on_close_others:
  assumes "i < length (participants s)" and "id_part (participants s ! i) \<noteq> p"
  shows "participants (conn_on_close s p) ! i = participants s ! i"
proof (cases "findIndex (\<lambda>q. id_part q = p) (participants s)")
  case None
  then show ?thesis by (simp add: conn_on_close_participants)
next
  case (Some k)
  from findIndex_Some[OF Some] assms have "k \<noteq> i" by auto
  with Some show ?thesis by (simp add: conn_on_close_participants)
qed

lemma conn_on_close_flags_first:
  assumes "p \<in> id_part ` set (participants s)"
  shows "\<exists>q\<in>set (participants (conn_on_close s p)). id_part q = p \<and> \<not> isConnected_part q"
proof -
  from assms have "findIndex (\<lambda>q. id_part q = p) (participants s) \<noteq> None"
    by (auto simp: findIndex_None_iff)
  then obtain k where k: "findIndex (\<lambda>q. id_part q = p) (participants s) = Some k"
    by auto
  let ?q = "(participants s ! k)\<lparr>isConnected_part := False\<rparr>"
  from findIndex_Some[OF k] have "k < length (participants s)" "id_part ?q = p"
    by auto
  then have "?q \<in> set (participants (conn_on_close s p))"
    by (simp add: conn_on_close_participants k set_update_memI)
  moreover have "\<not> isConnected_part ?q" by simp
  ultimately show ?thesis using \<open>id_part ?q = p\<close> by blast
qed

lemma conn_on_close_flags_all:
  assumes d: "distinct (map id_part (participants s))"
    and q: "q \<in> set (participants (conn_on_close s p))" and qp: "id_part q = p"
  shows "\<not> isConnected_part q"
proof (cases "findIndex (\<lambda>q. id_part q = p) (participants s)")
  case None
  with q qp show ?thesis
    by (auto simp: conn_on_close_participants findIndex_None_iff)
next
  case (Some k)
  let ?ps = "participants s"
  from findIndex_Some[OF Some] have k: "k < length ?ps" "id_part (?ps ! k) = p"
    by auto
  from q Some obtain j where j: "j < length ?ps"
      "q = (?ps[k := (?ps ! k)\<lparr>isConnected_part := False\<rparr>]) ! j"
    by (auto simp: conn_on_close_participants in_set_conv_nth)
  show ?thesis
  proof (cases "j = k")
    case True
    with j k show ?thesis by simp
  next
    case False
    with j have "q = ?ps ! j" by simp
    with qp k have "map id_part ?ps ! j = map id_part ?ps ! k"
      using j(1) by simp
    with d j(1) k(1) have "j = k"
      by (simp add: nth_eq_iff_index_eq del: nth_map)
    with False show ?thesis by simp
  qed
qed

text \<open>
  Claim C4. The callback of the close signal of the channel to \<open>p\<close> removes the
  entry of \<open>p\<close> from the connections. In the roster no id and no username changes
  (so no entry is removed), every entry of another id is what it was, and when an
  entry of id \<open>p\<close> exists, one is flagged disconnected afterwards: the first one.
  In a roster of pairwise distinct ids every entry of id \<open>p\<close> is then disconnected.
\<close>

theorem conn_on_close_effect:
  "connections (conn_on_close s p) = deleteConn p (connections s)
   \<and> p \<notin> peer_conn ` set (connections (conn_on_close s p))
   \<and> map id_part (participants (conn_on_close s p)) = map id_part (participants s)
   \<and> map username_part (participants (conn_on_close s p)) = map username_part (participants s)
   \<and> (\<forall>i<length (participants s). id_part (participants s ! i) \<noteq> p \<longrightarrow>
          participants (conn_on_close s p) ! i = participants s ! i)
   \<and> (p \<in> id_part ` set (participants s) \<longrightarrow>
          (\<exists>q\<in>set (participants (conn_on_close s p)). id_part q = p \<and> \<not> isConnected_part q))
   \<and> (distinct (map id_part (participants s)) \<longrightarrow>
          (\<forall>q\<in>set (participants (conn_on_close s p)). id_part q = p \<longrightarrow> \<not> isConnected_part q))"
proof -
  have "p \<notin> peer_conn ` set (connections (conn_on_close s p))"
    by (auto simp: conn_on_close_connections deleteConn_def)
  then show ?thesis
    using conn_on_close_connections conn_on_close_ids conn_on_close_usernames
      conn_on_close_others conn_on_close_flags_first conn_on_close_flags_all
    by blast
qed

theorem conn_on_close_effect_witness:
  "''Y'' \<in> id_part ` set (participants ((initialState ''room-1'' ''X'' 0)
       \<lparr>participants := [\<lparr>id_part = ''X'', username_part = ''xavier'', isConnected_part = True\<rparr>,
                         \<lparr>id_part = ''Y'', username_part = ''yara'', isConnected_part = True\<rparr>],
        connections := [incoming ''Y'' None]\<rparr>))
   \<and> distinct (map id_part (participants ((initialState ''room-1'' ''X'' 0)
       \<lparr>participants := [\<lparr>id_part = ''X'', username_part = ''xavier'', isConnected_part = True\<rparr>,
                         \<lparr>id_part = ''Y'', username_part = ''yara'', isConnected_part = True\<rparr>],
        connections := [incoming ''Y'' None]\<rparr>)))
   \<and> participants (conn_on_close ((initialState ''room-1'' ''X'' 0)
       \<lparr>participants := [\<lparr>id_part = ''X'', username_part = ''xavier'', isConnected_part = True\<rparr>,
                         \<lparr>id_part = ''Y'', username_part = ''yara'', isConnected_part = True\<rparr>],
        connections := [incoming ''Y'' None]\<rparr>) ''Y'')
       = [\<lparr>id_part = ''X'', username_part = ''xavier'', isConnected_part = True\<rparr>,
          \<lparr>id_part = ''Y'', username_part = ''yara'', isConnected_part = False\<rparr>]
   \<and> connections (conn_on_close ((initialState ''room-1'' ''X'' 0)
       \<lparr>participants := [\<lparr>id_part = ''X'', username_part = ''xavier'', isConnected_part = True\<rparr>,
                         \<lparr>id_part = ''Y'', username_part = ''yara'', isConnected_part = True\<rparr>],
        connections := [incoming ''Y'' None]\<rparr>) ''Y'') = []"
  using conn_on_close_effect
    [of "(initialState ''room-1'' ''X'' 0)
       \<lparr>participants := [\<lparr>id_part = ''X'', username_part = ''xavier'', isConnected_part = True\<rparr>,
                         \<lparr>id_part = ''Y'', username_part = ''yara'', isConnected_part = True\<rparr>],
        connections := [incoming ''Y'' None]\<rparr>" "''Y''"]
  by (simp add: initialState_def incoming_def conn_on_close_def deleteConn_def)

section \<open>Teardown\<close>

lemma conn_on_close_peer: "peer (conn_on_close s p) = peer s"
  by (simp add: conn_on_close_def Let_def split: option.splits)

lemma closeOpen_effects:
  "snd (closeOpen s cs) = map (\<lambda>c. Close (peer_conn c)) (filter open_conn cs)"
  by (induction cs arbitrary: s) (simp_all add: split_beta)

lemma closeOpen_peer: "peer (fst (closeOpen s cs)) = peer s"
  by (induction cs arbitrary: s) (simp_all add: conn_on_close_peer split_beta)

lemma closeOpen_connections:
  "connections (fst (closeOpen s cs)) =
     filter (\<lambda>c. peer_conn c \<notin> peer_conn ` set (filter open_conn cs)) (connections s)"
proof (induction cs arbitrary: s)
  case Nil
  then show ?case by simp
next
  case (Cons c cs)
  show ?case
  proof (cases "open_conn c")
    case True
    have "connections (fst (closeOpen s (c # cs))) =
            connections (fst (closeOpen (conn_on_close s (peer_conn c)) cs))"
      using True by (simp add: split_beta)
    also have "\<dots> = filter (\<lambda>d. peer_conn d \<notin> peer_conn ` set (filter open_conn cs))
                         (deleteConn (peer_conn c) (connections s))"
      by (simp add: Cons.IH conn_on_close_connections)
    also have "\<dots> = filter (\<lambda>d. peer_conn d \<notin> peer_conn ` set (filter open_conn (c # cs)))
                         (connections s)"
      using True by (auto simp: deleteConn_def intro: filter_cong)
    finally show ?thesis .
  next
    case False
    then show ?thesis by (simp add: Cons.IH)
  qed
qed

lemma closeOpen_none_open:
  "filter open_conn cs = [] \<Longrightarrow> closeOpen s cs = (s, [])"
  by (induction cs arbitrary: s) (auto split: if_splits)

lemma closeOpen_leaves_none_open:
  "filter open_conn (connections (fst (closeOpen s (connections s)))) = []"
  by (auto simp: closeOpen_connections filter_empty_conv)

lemma closeOpen_roster_keys: "rosterKeys (fst (closeOpen s cs)) = rosterKeys s"
proof (induction cs arbitrary: s)
  case Nil
  then show ?case by simp
next
  case (Cons c cs)
  have "rosterKeys (conn_on_close s (peer_conn c)) = rosterKeys s"
    using conn_on_close_ids[of s "peer_conn c"] conn_on_close_usernames[of s "peer_conn c"]
    by (simp add: rosterKeys_def list_eq_iff_nth_eq)
  with Cons.IH show ?case
    by (simp add: split_beta)
qed

lemma handleDisconnect_effects:
  "snd (handleDisconnect s) =
     map (\<lambda>c. Close (peer_conn c)) (filter open_conn (connections s)) @
     (case peer s of None \<Rightarrow> [] | Some p \<Rightarrow> if destroyed p then [] else [Destroy])"
  using closeOpen_effects[of s "connections s"] closeOpen_peer[of s "connections s"]
  by (auto simp: handleDisconnect_def split: prod.splits option.splits)

lemma handleDisconnect_connections:
  "connections (fst (handleDisconnect s)) = connections (fst (closeOpen s (connections s)))"
  by (auto simp: handleDisconnect_def split: prod.splits option.splits)

lemma handleDisconnect_peer:
  "peer (fst (handleDisconnect s)) =
     (case peer s of None \<Rightarrow> None | Some p \<Rightarrow>
        if destroyed p then Some p else Some (p\<lparr>destroyed := True, disconnected := True\<rparr>))"
  using closeOpen_peer[of s "connections s"]
  by (auto simp: handleDisconnect_def split: prod.splits option.splits)

lemma handleDisconnect_twice:
  "handleDisconnect (fst (handleDisconnect s)) = (fst (handleDisconnect s), [])"
proof -
  let ?s1 = "fst (handleDisconnect s)"
  have "filter open_conn (connections ?s1) = []"
    by (simp add: handleDisconnect_connections closeOpen_leaves_none_open)
  then have c: "closeOpen ?s1 (connections ?s1) = (?s1, [])"
    by (rule closeOpen_none_open)
  have "case peer ?s1 of None \<Rightarrow> True | Some p \<Rightarrow> destroyed p"
    by (simp add: handleDisconnect_peer split: option.splits)
  with c show ?thesis
    by (auto simp: handleDisconnect_def[of ?s1] split: option.splits)
qed

text \<open>
  Claim C9. A second run of \<^verbatim>\<open>handleDisconnect\<close> after a first one changes nothing
  and has no effect: it closes no channel and does not destroy the peer. The first
  run closes exactly the channels that report open, each once when the connections
  are keyed by pairwise distinct peers, and over both runs the peer is destroyed
  once if it existed and was not destroyed before, and not at all otherwise.
\<close>

theorem handleDisconnect_idempotent:
  "handleDisconnect (fst (handleDisconnect s)) = (fst (handleDisconnect s), [])
   \<and> snd (handleDisconnect s) =
       map (\<lambda>c. Close (peer_conn c)) (filter open_conn (connections s)) @
       (case peer s of None \<Rightarrow> [] | Some p \<Rightarrow> if destroyed p then [] else [Destroy])
   \<and> (distinct (map peer_conn (connections s)) \<longrightarrow> distinct (snd (handleDisconnect s)))
   \<and> releases (snd (handleDisconnect s) @ snd (handleDisconnect (fst (handleDisconnect s))))
       = (case peer s of None \<Rightarrow> 0 | Some p \<Rightarrow> if destroyed p then 0 else 1)"
proof -
  have d: "distinct (map peer_conn (connections s)) \<longrightarrow> distinct (snd (handleDisconnect s))"
    by (auto simp: handleDisconnect_effects distinct_map distinct_map_filter inj_on_def
        split: option.splits)
  have r: "releases (snd (handleDisconnect s) @ snd (handleDisconnect (fst (handleDisconnect s))))
       = (case peer s of None \<Rightarrow> 0 | Some p \<Rightarrow> if destroyed p then 0 else 1)"
    by (simp add: handleDisconnect_twice handleDisconnect_effects releases_def
        split: option.splits)
  from d r handleDisconnect_twice handleDisconnect_effects show ?thesis by blast
qed

theorem handleDisconnect_idempotent_witness:
  "distinct (map peer_conn (connections ((initializePeer (initialState ''room-1'' ''X'' 0) None)
       \<lparr>connections := [(incoming ''Y'' None)\<lparr>open_conn := True\<rparr>, incoming ''Z'' None]\<rparr>)))
   \<and> snd (handleDisconnect ((initializePeer (initialState ''room-1'' ''X'' 0) None)
       \<lparr>connections := [(incoming ''Y'' None)\<lparr>open_conn := True\<rparr>, incoming ''Z'' None]\<rparr>))
       = [Close ''Y'', Destroy]
   \<and> snd (handleDisconnect (fst (handleDisconnect ((initializePeer (initialState ''room-1'' ''X'' 0) None)
       \<lparr>connections := [(incoming ''Y'' None)\<lparr>open_conn := True\<rparr>, incoming ''Z'' None]\<rparr>)))) = []"
  using handleDisconnect_idempotent
    [of "(initializePeer (initialState ''room-1'' ''X'' 0) None)
       \<lparr>connections := [(incoming ''Y'' None)\<lparr>open_conn := True\<rparr>, incoming ''Z'' None]\<rparr>"]
  by (simp add: initializePeer_def initialState_def incoming_def)

section \<open>The roster only grows\<close>

lemma handlePeerData_roster_keys:
  "prefix (rosterKeys s) (rosterKeys (handlePeerData now s p f))"
  by (cases f) (simp_all add: rosterKeys_def Let_def watch_messages_def)

lemma conn_on_close_roster_keys: "rosterKeys (conn_on_close s p) = rosterKeys s"
  using conn_on_close_ids[of s p] conn_on_close_usernames[of s p]
  by (simp add: rosterKeys_def list_eq_iff_nth_eq)

lemma handleConnection_participants: "participants (handleConnection s c) = participants s"
  by (simp add: handleConnection_def)

lemma joinRoom_participants: "participants (joinRoom s) = participants s"
  by (simp add: joinRoom_def handleConnection_def split: option.splits)

lemma peer_on_open_roster_keys: "prefix (rosterKeys s) (rosterKeys (peer_on_open s i))"
  by (simp add: peer_on_open_def Let_def rosterKeys_def joinRoom_participants)

lemma sendMessage_participants: "participants (fst (sendMessage a b c s)) = participants s"
  by (simp add: sendMessage_def Let_def)

lemma handleDisconnect_roster_keys: "rosterKeys (fst (handleDisconnect s)) = rosterKeys s"
proof -
  have "participants (fst (handleDisconnect s)) = participants (fst (closeOpen s (connections s)))"
    by (simp add: handleDisconnect_def split_beta split: option.splits)
  then show ?thesis
    using closeOpen_roster_keys[of s "connections s"] by (simp add: rosterKeys_def)
qed

lemma step_roster_keys: "prefix (rosterKeys s) (rosterKeys (fst (step s e)))"
proof (cases e)
  case (PeerOpen i)
  then show ?thesis by (simp add: peer_on_open_roster_keys)
next
  case (PeerConnection c)
  then show ?thesis by (simp add: peer_on_connection_def rosterKeys_def handleConnection_participants)
next
  case (ConnOpen c)
  then show ?thesis by (simp add: conn_on_open_def rosterKeys_def)
next
  case (ConnData now c d)
  then show ?thesis by (simp add: conn_on_data_def handlePeerData_roster_keys)
next
  case (ConnClose p)
  then show ?thesis by (simp add: conn_on_close_roster_keys)
next
  case (LocalSend a b c)
  then show ?thesis by (simp add: rosterKeys_def sendMessage_participants)
next
  case Teardown
  then show ?thesis by (simp add: handleDisconnect_roster_keys)
next
  case (TimeoutPoll now)
  then show ?thesis by (simp add: timeoutCheck_def rosterKeys_def Let_def)
qed

lemma ids_of_roster_keys: "id_part ` set (participants s) = fst ` set (rosterKeys s)"
  by (force simp: rosterKeys_def)

text \<open>
  Claim C8. From every state (reachable or not), every callback (handling a frame,
  a local send, the close signal of a channel, teardown, and also the peer's open
  and connection signals, a channel's open signal and the timeout poll) leaves a
  roster that starts with the entries of the old one, each under its id and
  username: the ids of the old roster are among those of the new one.
\<close>

theorem step_roster_monotone:
  "id_part ` set (participants s) \<subseteq> id_part ` set (participants (fst (step s e)))
   \<and> prefix (rosterKeys s) (rosterKeys (fst (step s e)))"
proof -
  have p: "prefix (rosterKeys s) (rosterKeys (fst (step s e)))"
    by (rule step_roster_keys)
  then have "set (rosterKeys s) \<subseteq> set (rosterKeys (fst (step s e)))"
    by (rule set_mono_prefix)
  then show ?thesis using p by (auto simp: ids_of_roster_keys)
qed

section \<open>The timeout poll\<close>

text \<open>
  Claim C6. The poll, run every 60000 milliseconds, navigates away from the chat
  exactly when the time since \<open>lastActivityTime\<close> is more than 15 minutes, and
  this is all it does: the state after any poll, \<open>lastActivityTime\<close> included, is
  the state before it.
\<close>

theorem timeoutCheck_poll:
  "snd (timeoutCheck now s) =
     (if now - lastActivityTime s > 15 * 60 * 1000 then [RouterPush ''/''] else [])
   \<and> fst (timeoutCheck now s) = s
   \<and> lastActivityTime (fst (timeoutCheck now s)) = lastActivityTime s
   \<and> pollInterval = 60 * 1000"
  by (simp add: timeoutCheck_def sessionTimeout_def pollInterval_def Let_def)

section \<open>Sending a message\<close>

lemma trim_empty_iff: "trim s = [] \<longleftrightarrow> list_all isWhiteSpace s"
proof
  assume "trim s = []"
  then have all: "\<forall>x\<in>set (dropWhile isWhiteSpace s). isWhiteSpace x"
    by (simp add: trim_def dropWhile_eq_Nil_conv)
  have "dropWhile isWhiteSpace s = []"
  proof (rule ccontr)
    assume ne: "dropWhile isWhiteSpace s \<noteq> []"
    then have "\<not> isWhiteSpace (hd (dropWhile isWhiteSpace s))"
      by (rule hd_dropWhile)
    with all ne show False by (meson hd_in_set)
  qed
  then show "list_all isWhiteSpace s"
    by (simp add: dropWhile_eq_Nil_conv list_all_iff)
next
  assume "list_all isWhiteSpace s"
  then show "trim s = []"
    by (auto simp: trim_def list_all_iff dest: set_dropWhileD)
qed

text \<open>
  Claim C10. When the draft consists of white space only (the empty draft
  included) or the peer is not connected, \<^verbatim>\<open>sendMessage\<close> returns the state it was
  given and sends nothing.
\<close>

theorem sendMessage_guard:
  assumes "list_all isWhiteSpace (message s) \<or> \<not> isConnected s"
  shows "sendMessage t_id t_stamp t_activity s = (s, [])"
  using assms by (auto simp: sendMessage_def trim_empty_iff)

theorem sendMessage_guard_witness:
  "list_all isWhiteSpace
     (message ((initialState ''room-1'' ''X'' 0)\<lparr>message := ''  '', isConnected := True\<rparr>))
   \<and> sendMessage 5 5 5 ((initialState ''room-1'' ''X'' 0)\<lparr>message := ''  '', isConnected := True\<rparr>)
       = ((initialState ''room-1'' ''X'' 0)\<lparr>message := ''  '', isConnected := True\<rparr>, [])"
  using sendMessage_guard
    [of "(initialState ''room-1'' ''X'' 0)\<lparr>message := ''  '', isConnected := True\<rparr>" 5 5 5]
  by (simp add: initialState_def isWhiteSpace_def)

section \<open>The ids of local messages\<close>

lemma digits_not_Nil: "digits n \<noteq> []"
  by (subst digits.simps) simp

lemma digit_char_inj:
  "a < 10 \<Longrightarrow> b < 10 \<Longrightarrow> char_of (48 + a) = (char_of (48 + b) :: char) \<Longrightarrow> a = (b::nat)"
  by simp

lemma digits_inj: "digits a = digits b \<Longrightarrow> a = b"
proof (induction a arbitrary: b rule: digits.induct)
  case (1 n)
  show ?case
  proof (cases "n < 10")
    case small: True
    show ?thesis
    proof (cases "b < 10")
      case True
      with small "1.prems" show ?thesis
        by (simp add: digits.simps[of n] digits.simps[of b])
    next
      case False
      with small "1.prems" digits_not_Nil[of "b div 10"] show ?thesis
        by (simp add: digits.simps[of n] digits.simps[of b])
    qed
  next
    case large: False
    show ?thesis
    proof (cases "b < 10")
      case True
      with large "1.prems" digits_not_Nil[of "n div 10"] show ?thesis
        by (simp add: digits.simps[of n] digits.simps[of b])
    next
      case False
      with large "1.prems" have eq: "digits (n div 10) = digits (b div 10)"
        and last: "char_of (48 + n mod 10) = (char_of (48 + b mod 10) :: char)"
        by (simp_all add: digits.simps[of n] digits.simps[of b])
      from "1.IH"[OF large eq] have d: "n div 10 = b div 10" .
      have "n mod 10 < 10" "b mod 10 < 10" by simp_all
      from digit_char_inj[OF this last] have m: "n mod 10 = b mod 10" .
      from d m show ?thesis by (metis div_mult_mod_eq)
    qed
  qed
qed

lemma minus_not_in_digits: "CHR ''-'' \<notin> set (digits n)"
proof (induction n rule: digits.induct)
  case (1 n)
  have c: "k < 10 \<Longrightarrow> char_of (48 + k) \<noteq> CHR ''-''" for k :: nat
    by (simp add: char_of_eq_iff take_bit_eq_mod)
  show ?case
  proof (cases "n < 10")
    case True
    then show ?thesis using c[of n] by (simp add: digits.simps[of n] eq_commute)
  next
    case False
    then show ?thesis using "1.IH" c[of "n mod 10"]
      by (simp add: digits.simps[of n] eq_commute)
  qed
qed

lemma toString_inj: "toString i = toString j \<Longrightarrow> i = j"
proof -
  assume eq: "toString i = toString j"
  have hd: "CHR ''-'' # xs \<noteq> digits n" for n xs
    using minus_not_in_digits[of n] by (metis list.set_intros(1))
  show ?thesis
  proof (cases "i < 0")
    case ineg: True
    show ?thesis
    proof (cases "j < 0")
      case True
      with ineg eq have "nat (- i) = nat (- j)"
        by (simp add: toString_def digits_inj)
      with ineg True show ?thesis by simp
    next
      case False
      with ineg eq hd[of "digits (nat (- i))" "nat j"] show ?thesis
        by (simp add: toString_def)
    qed
  next
    case ipos: False
    show ?thesis
    proof (cases "j < 0")
      case True
      with ipos eq hd[of "digits (nat (- j))" "nat i"] show ?thesis
        by (simp add: toString_def)
    next
      case False
      with ipos eq have "nat i = nat j"
        by (simp add: toString_def digits_inj)
      with ipos False show ?thesis by simp
    qed
  qed
qed

lemma sendMessage_messages:
  "messages (fst (sendMessage t u v s)) =
     (if trim (message s) = [] \<or> \<not> isConnected s then messages s
      else messages s @ [\<lparr>id_msg = peerId s @ ''-'' @ toString t, sender = username s,
             senderId = peerId s, content = message s, timestamp = u\<rparr>])"
  by (simp add: sendMessage_def Let_def)

lemma sendMessage_peerId: "peerId (fst (sendMessage t u v s)) = peerId s"
  by (simp add: sendMessage_def Let_def)

lemma localRun_distinct:
  "distinct (map id_msg (messages s)) \<Longrightarrow>
   distinct (map (\<lambda>x. fst (snd x)) r) \<Longrightarrow>
   (\<forall>x\<in>set r. peerId s @ ''-'' @ toString (fst (snd x)) \<notin> id_msg ` set (messages s)) \<Longrightarrow>
   distinct (map id_msg (messages (localRun s r)))"
proof (induction r arbitrary: s)
  case Nil
  then show ?case by simp
next
  case (Cons x r)
  obtain d t u v where x: "x = (d, t, u, v)" by (cases x) auto
  let ?s' = "fst (sendMessage t u v (typing s d))"
  have ids: "id_msg ` set (messages ?s') \<subseteq>
      insert (peerId s @ ''-'' @ toString t) (id_msg ` set (messages s))"
    by (auto simp: sendMessage_messages typing_def)
  have pid: "peerId ?s' = peerId s"
    by (simp add: sendMessage_peerId typing_def)
  have d1: "distinct (map id_msg (messages ?s'))"
    using Cons.prems(1,3) x by (auto simp: sendMessage_messages typing_def)
  have d2: "distinct (map (\<lambda>x. fst (snd x)) r)"
    using Cons.prems(2) by simp
  have fresh: "\<forall>y\<in>set r. peerId ?s' @ ''-'' @ toString (fst (snd y)) \<notin> id_msg ` set (messages ?s')"
  proof
    fix y
    assume in_r: "y \<in> set r"
    with Cons.prems(2) x have "fst (snd y) \<noteq> t" by force
    then have "toString (fst (snd y)) \<noteq> toString t" using toString_inj by blast
    moreover from in_r Cons.prems(3)
    have "peerId s @ ''-'' @ toString (fst (snd y)) \<notin> id_msg ` set (messages s)"
      by auto
    ultimately show "peerId ?s' @ ''-'' @ toString (fst (snd y)) \<notin> id_msg ` set (messages ?s')"
      using ids pid by auto
  qed
  from Cons.IH[OF d1 d2 fresh] x show ?case by simp
qed

text \<open>
  Claim C7, as amended. The id of the message that \<^verbatim>\<open>sendMessage\<close> creates is the
  peer id, a minus sign and the decimal clock reading. Two sends of one client
  (equal peer ids) create equal ids exactly when their clock readings are equal;
  so in a run of local sends whose clock readings are pairwise distinct, from a
  log of pairwise distinct ids that holds none of the ids to come, the ids of the
  log stay pairwise distinct.
\<close>

theorem sendMessage_ids:
  "(trim (message sa) \<noteq> [] \<and> isConnected sa \<and> trim (message sb) \<noteq> [] \<and> isConnected sb
      \<and> peerId sa = peerId sb \<longrightarrow>
      (\<exists>ma mb. messages (fst (sendMessage ta ua va sa)) = messages sa @ [ma]
         \<and> messages (fst (sendMessage tb ub vb sb)) = messages sb @ [mb]
         \<and> id_msg ma = peerId sa @ ''-'' @ toString ta
         \<and> id_msg mb = peerId sb @ ''-'' @ toString tb
         \<and> (id_msg ma = id_msg mb \<longleftrightarrow> ta = tb)))
   \<and> (distinct (map id_msg (messages s)) \<and> distinct (map (\<lambda>x. fst (snd x)) r)
      \<and> (\<forall>x\<in>set r. peerId s @ ''-'' @ toString (fst (snd x)) \<notin> id_msg ` set (messages s)) \<longrightarrow>
      distinct (map id_msg (messages (localRun s r))))"
proof (intro conjI impI)
  assume a: "trim (message sa) \<noteq> [] \<and> isConnected sa \<and> trim (message sb) \<noteq> [] \<and> isConnected sb
      \<and> peerId sa = peerId sb"
  have "toString ta = toString tb \<longleftrightarrow> ta = tb"
    using toString_inj by blast
  with a show "\<exists>ma mb. messages (fst (sendMessage ta ua va sa)) = messages sa @ [ma]
         \<and> messages (fst (sendMessage tb ub vb sb)) = messages sb @ [mb]
         \<and> id_msg ma = peerId sa @ ''-'' @ toString ta
         \<and> id_msg mb = peerId sb @ ''-'' @ toString tb
         \<and> (id_msg ma = id_msg mb \<longleftrightarrow> ta = tb)"
    by (simp add: sendMessage_messages)
next
  assume "distinct (map id_msg (messages s)) \<and> distinct (map (\<lambda>x. fst (snd x)) r)
      \<and> (\<forall>x\<in>set r. peerId s @ ''-'' @ toString (fst (snd x)) \<notin> id_msg ` set (messages s))"
  then show "distinct (map id_msg (messages (localRun s r)))"
    using localRun_distinct by blast
qed

theorem sendMessage_ids_witness:
  "trim (message (typing (peer_on_open (initializePeer (initialState ''room-1'' ''X'' 0) (Some ''room-1'')) ''room-1'') ''a'')) \<noteq> [] \<and> isConnected (typing (peer_on_open (initializePeer (initialState ''room-1'' ''X'' 0) (Some ''room-1'')) ''room-1'') ''a'')
   \<and> peerId (typing (peer_on_open (initializePeer (initialState ''room-1'' ''X'' 0) (Some ''room-1'')) ''room-1'') ''a'') = peerId (typing (peer_on_open (initializePeer (initialState ''room-1'' ''X'' 0) (Some ''room-1'')) ''room-1'') ''b'')
   \<and> distinct (map (\<lambda>x. fst (snd x)) [(''a'', 1000::int, 1000::int, 1000::int), (''b'', 1001, 1001, 1001)])
   \<and> map id_msg (messages (fst (sendMessage 1000 1000 1000 (typing (peer_on_open (initializePeer (initialState ''room-1'' ''X'' 0) (Some ''room-1'')) ''room-1'') ''a''))))
        = [''room-1-1000'']
   \<and> map id_msg (messages (fst (sendMessage 1001 1001 1001 (typing (peer_on_open (initializePeer (initialState ''room-1'' ''X'' 0) (Some ''room-1'')) ''room-1'') ''b''))))
        = [''room-1-1001'']
   \<and> map id_msg (messages (localRun (peer_on_open (initializePeer (initialState ''room-1'' ''X'' 0) (Some ''room-1'')) ''room-1'') [(''a'', 1000, 1000, 1000), (''b'', 1001, 1001, 1001)]))
        = [''room-1-1000'', ''room-1-1001'']
   \<and> distinct (map id_msg (messages (localRun (peer_on_open (initializePeer (initialState ''room-1'' ''X'' 0) (Some ''room-1'')) ''room-1'')
          [(''a'', 1000, 1000, 1000), (''b'', 1001, 1001, 1001)])))"
  using sendMessage_ids
    [where sa = "typing (peer_on_open (initializePeer (initialState ''room-1'' ''X'' 0) (Some ''room-1'')) ''room-1'') ''a''" and sb = "typing (peer_on_open (initializePeer (initialState ''room-1'' ''X'' 0) (Some ''room-1'')) ''room-1'') ''b''" and ta = 1000 and tb = 1001
       and ua = 1000 and ub = 1001 and va = 1000 and vb = 1001 and s = "(peer_on_open (initializePeer (initialState ''room-1'' ''X'' 0) (Some ''room-1'')) ''room-1'')"
       and r = "[(''a'', 1000, 1000, 1000), (''b'', 1001, 1001, 1001)]"]
  by (simp add: peer_on_open_def initializePeer_def initialState_def typing_def sendMessage_def
      trim_def isWhiteSpace_def toString_def digits.simps Let_def
      char_of_eq_iff take_bit_eq_mod)

text \<open>
  The claim as it was stated fails: two sends of one client at the same clock
  reading create the same id, and the log holds it twice.
\<close>

theorem sendMessage_same_clock_counterexample:
  "map id_msg (messages (localRun (peer_on_open (initializePeer (initialState ''room-1'' ''X'' 0) (Some ''room-1'')) ''room-1'') [(''a'', 1000, 1000, 1000), (''b'', 1000, 1000, 1000)]))
     = [''room-1-1000'', ''room-1-1000'']
   \<and> \<not> distinct (map id_msg (messages (localRun (peer_on_open (initializePeer (initialState ''room-1'' ''X'' 0) (Some ''room-1'')) ''room-1'')
          [(''a'', 1000, 1000, 1000), (''b'', 1000, 1000, 1000)])))"
  by (simp add: peer_on_open_def initializePeer_def initialState_def typing_def sendMessage_def
      trim_def isWhiteSpace_def toString_def digits.simps Let_def
      char_of_eq_iff take_bit_eq_mod)

section \<open>The open signal of a join channel\<close>

text \<open>
  The callback of the open signal sends the backfill when the connection object it
  was registered on carries the join flag. \<^verbatim>\<open>joinRoom\<close> registers it on the
  connection it has just created with that flag.
\<close>

lemma joinRoom_connection:
  "\<not> isRoomCreator s \<Longrightarrow> peer s = Some p \<Longrightarrow> \<not> disconnected p \<Longrightarrow>
   connections (joinRoom s) =
     setConn \<lparr>peer_conn = roomId s,
              metadata_conn = Some \<lparr>username_meta = username s, joinRoom_meta = True\<rparr>,
              open_conn = False\<rparr> (connections s)"
  by (simp add: joinRoom_def connect_def handleConnection_def)

text \<open>
  Claim C3, evaluated on the code. The joiner \<open>Y\<close> dials \<open>room-1\<close>: its connection
  carries the join flag, so when the channel opens the joiner's callback sends
  USER\_INFO, INIT\_MESSAGES and INIT\_PARTICIPANTS to the dialled peer, and the
  dialled peer's callback, on the incoming connection with the same metadata,
  sends the same three kinds of frame to the joiner. Both ends send the backfill,
  where the comment in the source reads "If this is a new peer joining, send them
  all current messages".
\<close>

theorem join_channel_both_ends_backfill:
  "connections (peer_on_open (initializePeer (initialState ''room-1'' ''yara'' 0) None) ''Y'')
     = [\<lparr>peer_conn = ''room-1'',
         metadata_conn = Some \<lparr>username_meta = ''yara'', joinRoom_meta = True\<rparr>,
         open_conn = False\<rparr>]
   \<and> snd (conn_on_open
         (peer_on_open (initializePeer (initialState ''room-1'' ''yara'' 0) None) ''Y'')
         \<lparr>peer_conn = ''room-1'',
          metadata_conn = Some \<lparr>username_meta = ''yara'', joinRoom_meta = True\<rparr>,
          open_conn = True\<rparr>)
     = [Send ''room-1'' (USER_INFO ''Y'' ''yara''),
        Send ''room-1'' (INIT_MESSAGES []),
        Send ''room-1'' (INIT_PARTICIPANTS
          [\<lparr>id_part = ''Y'', username_part = ''yara'', isConnected_part = True\<rparr>])]
   \<and> snd (conn_on_open
         (peer_on_open (initializePeer (initialState ''room-1'' ''xavier'' 0) (Some ''room-1''))
            ''room-1'')
         ((incoming ''Y'' (Some \<lparr>username_meta = ''yara'', joinRoom_meta = True\<rparr>))
            \<lparr>open_conn := True\<rparr>))
     = [Send ''Y'' (USER_INFO ''room-1'' ''xavier''),
        Send ''Y'' (INIT_MESSAGES []),
        Send ''Y'' (INIT_PARTICIPANTS
          [\<lparr>id_part = ''room-1'', username_part = ''xavier'', isConnected_part = True\<rparr>])]"
  by (simp add: peer_on_open_def initializePeer_def initialState_def joinRoom_def connect_def
      handleConnection_def conn_on_open_def incoming_def Let_def)

section \<open>The session clock\<close>

text \<open>
  Which callbacks move \<open>lastActivityTime\<close>: a local send sets it itself and
  INIT\_MESSAGES assigns the ref, which runs the watcher; USER\_INFO and
  NEW\_MESSAGE leave it alone, since \<^verbatim>\<open>push\<close> and \<^verbatim>\<open>sort\<close> change the array in place.
\<close>

lemma new_message_clock: "lastActivityTime (handlePeerData now s p (NEW_MESSAGE d)) = lastActivityTime s"
  by simp

lemma user_info_clock: "lastActivityTime (handlePeerData now s p (USER_INFO i u)) = lastActivityTime s"
  by simp

lemma init_messages_clock: "lastActivityTime (handlePeerData now s p (INIT_MESSAGES ds)) = now"
  by (simp add: Let_def watch_messages_def)

lemma sendMessage_clock:
  "trim (message s) \<noteq> [] \<Longrightarrow> isConnected s \<Longrightarrow>
   lastActivityTime (fst (sendMessage t u v s)) = v"
  by (simp add: sendMessage_def Let_def)

text \<open>
  Claim C5, evaluated on the code. The anchor, whose \<open>lastActivityTime\<close> is 0,
  handles at clock reading 5000 a NEW\_MESSAGE frame with a message it does not
  hold: the message enters the log and \<open>lastActivityTime\<close> is still 0, where the
  comment on the watcher reads "Watch for activity to reset timeout".
\<close>

theorem new_message_leaves_clock:
  "messages (handlePeerData 5000
      (peer_on_open (initializePeer (initialState ''room-1'' ''xavier'' 0) (Some ''room-1''))
         ''room-1'')
      ''Y'' (NEW_MESSAGE (msgOf ''Y'' ''Y-4000'' 4000)))
     = [msgOf ''Y'' ''Y-4000'' 4000]
   \<and> lastActivityTime (handlePeerData 5000
      (peer_on_open (initializePeer (initialState ''room-1'' ''xavier'' 0) (Some ''room-1''))
         ''room-1'')
      ''Y'' (NEW_MESSAGE (msgOf ''Y'' ''Y-4000'' 4000))) = 0"
  by (simp add: peer_on_open_def initializePeer_def initialState_def msgOf_def Let_def
      sortByTimestamp_def)

end
